theory Spec2Isabelle
  imports Complex_Main "HOL-Library.Word" "HOL-Library.Sublist"
begin

section \<open>The platform seen by \<^verbatim>\<open>disk_broom.py\<close>\<close>

text \<open>
  The engine of \<^verbatim>\<open>disk_broom.py\<close> is \<^verbatim>\<open>analyze_files\<close> with its helpers
  \<^verbatim>\<open>validate_directory_path\<close>, \<^verbatim>\<open>get_file_attributes\<close> and \<^verbatim>\<open>compute_file_hash\<close>.
  Everything they obtain from outside (the file system, the clock, \<^verbatim>\<open>hashlib\<close>) is a
  field of the record \<open>os_env\<close>; a call that raises in Python is \<open>None\<close> here.
  Strings are lists of characters, file contents are lists of bytes, sizes are naturals,
  thresholds are Python integers and time stamps are exact reals (the rounding of
  Python's floats is not modelled). Console and log output is not modelled.
\<close>

type_synonym path = string
type_synonym bytes = "8 word list"

record stat_result =
  st_size :: nat
  st_atime :: real
  st_mtime :: real

record os_env =
  expanduser :: "path \<Rightarrow> path"
  path_exists :: "path \<Rightarrow> bool"
  path_isdir :: "path \<Rightarrow> bool"
  os_walk :: "path \<Rightarrow> (path \<times> string list \<times> string list) list"
  os_stat :: "path \<Rightarrow> stat_result option"
  file_content :: "path \<Rightarrow> bytes option"
  time_time :: "nat \<Rightarrow> real"
  sha256_hexdigest :: "bytes \<Rightarrow> string"

text \<open>
  \<open>os_walk env root\<close> is the finite sequence of triples (dirpath, dirnames, filenames)
  that \<^verbatim>\<open>os.walk(root)\<close> yields; \<open>os_stat env p\<close> is \<open>None\<close> when \<^verbatim>\<open>os.stat(p)\<close> raises;
  \<open>file_content env p\<close> is \<open>None\<close> when opening or reading \<open>p\<close> raises;
  \<open>time_time env n\<close> is what the call number \<open>n\<close> of \<^verbatim>\<open>time.time()\<close> returns;
  \<open>sha256_hexdigest env bs\<close> is \<^verbatim>\<open>hashlib.sha256(bs).hexdigest()\<close>.

  The effects of the helpers on the outside are kept in a \<open>world\<close>: how often the clock
  has been read, and which paths have been passed to \<^verbatim>\<open>os.stat\<close> and to \<^verbatim>\<open>open\<close>, in
  call order.
\<close>

record world =
  ticks :: nat
  stat_calls :: "path list"
  open_calls :: "path list"

section \<open>String and path operations of the Python library\<close>

text \<open>
  \<^verbatim>\<open>str.lower\<close> on the ASCII letters; other characters are left as they are (none of
  the junk patterns below can arise from lower-casing a character outside ASCII).
\<close>

definition lower_char :: "char \<Rightarrow> char" where
  "lower_char c =
     (case map_of (zip ''ABCDEFGHIJKLMNOPQRSTUVWXYZ'' ''abcdefghijklmnopqrstuvwxyz'') c of
        None \<Rightarrow> c
      | Some l \<Rightarrow> l)"

definition lower :: "string \<Rightarrow> string" where
  "lower s = map lower_char s"

definition startswith :: "string \<Rightarrow> string \<Rightarrow> bool" where
  "startswith s pfx = (take (length pfx) s = pfx)"

definition endswith :: "string \<Rightarrow> string \<Rightarrow> bool" where
  "endswith s sfx = (length sfx \<le> length s \<and> drop (length s - length sfx) s = sfx)"

text \<open>\<^verbatim>\<open>posixpath.join(a, b)\<close> for two components.\<close>

definition path_join :: "path \<Rightarrow> string \<Rightarrow> path" where
  "path_join a b =
     (if startswith b ''/'' then b
      else if a = [] \<or> endswith a ''/'' then a @ b
      else a @ ''/'' @ b)"

text \<open>\<^verbatim>\<open>str.rfind(c)\<close> for a single character: the last index of \<open>c\<close>, or \<open>-1\<close>.\<close>

definition rfind :: "string \<Rightarrow> char \<Rightarrow> int" where
  "rfind s c =
     (if c \<in> set s
      then int (length s) - 1 - int (length (takeWhile (\<lambda>x. x \<noteq> c) (rev s)))
      else - 1)"

text \<open>
  \<^verbatim>\<open>posixpath.splitext(p)\<close>: the extension starts at the last dot, provided that dot
  comes after the last slash and some character between the slash and the dot is not
  a dot (leading dots of the base name do not start an extension).
\<close>

definition splitext :: "path \<Rightarrow> string \<times> string" where
  "splitext p =
     (let sepIndex = rfind p (CHR ''/'');
          dotIndex = rfind p (CHR ''.'')
      in if dotIndex > sepIndex \<and>
            list_ex (\<lambda>c. c \<noteq> CHR ''.'')
              (take (nat (dotIndex - (sepIndex + 1))) (drop (nat (sepIndex + 1)) p))
         then (take (nat dotIndex) p, drop (nat dotIndex) p)
         else (p, []))"

section \<open>\<^verbatim>\<open>validate_directory_path\<close>\<close>

text \<open>
  The Python function returns \<^verbatim>\<open>False\<close> or the expanded path; \<^verbatim>\<open>False\<close> is \<open>None\<close>
  here. The argument may be \<^verbatim>\<open>None\<close>.
\<close>

definition validate_directory_path :: "os_env \<Rightarrow> path option \<Rightarrow> path option" where
  "validate_directory_path env path =
     (case path of
        None \<Rightarrow> None
      | Some p \<Rightarrow>
          (let p' = expanduser env p
           in if \<not> path_exists env p' then None
              else if \<not> path_isdir env p' then None
              else Some p'))"

section \<open>\<^verbatim>\<open>compute_file_hash\<close>\<close>

text \<open>
  The hasher object is modelled by the bytes fed to it so far (\<^verbatim>\<open>update\<close> appends,
  \<^verbatim>\<open>hexdigest\<close> digests all of them). \<open>read_blocks\<close> is the loop
  \<^verbatim>\<open>for block in iter(lambda: f.read(block_size), b'')\<close>: it reads blocks until a read
  returns the empty byte string.
\<close>

function read_blocks :: "bytes \<Rightarrow> nat \<Rightarrow> bytes \<Rightarrow> bytes" where
  "read_blocks rest block_size fed =
     (let block = take block_size rest
      in if block = [] then fed
         else read_blocks (drop block_size rest) block_size (fed @ block))"
  by pat_completeness auto
termination
  by (relation "measure (\<lambda>(rest, block_size, fed). length rest)") auto

declare read_blocks.simps [simp del]

definition compute_file_hash ::
  "os_env \<Rightarrow> world \<Rightarrow> path \<Rightarrow> nat \<Rightarrow> bool \<Rightarrow> string option \<times> world" where
  "compute_file_hash env w path block_size sample =
     (let w' = w\<lparr>open_calls := open_calls w @ [path]\<rparr>
      in case file_content env path of
           None \<Rightarrow> (None, w')
         | Some content \<Rightarrow>
             (let fed = (if sample then take (1024 * 1024) content
                         else read_blocks content block_size [])
              in (Some (sha256_hexdigest env fed), w')))"

section \<open>\<^verbatim>\<open>get_file_attributes\<close>\<close>

record attributes =
  size_bytes :: nat
  is_oversized :: bool
  is_old :: bool
  is_stale_download :: bool
  last_access :: real
  last_mod :: real

text \<open>
  The clock is read once for \<^verbatim>\<open>threshold\<close> and, only when the path ends with one of
  the two download suffixes, a second time for \<^verbatim>\<open>is_stale_download\<close>.
\<close>

definition get_file_attributes ::
  "os_env \<Rightarrow> world \<Rightarrow> path \<Rightarrow> int \<Rightarrow> int \<Rightarrow> int \<Rightarrow> attributes option \<times> world" where
  "get_file_attributes env w file_path months oversized_threshold download_stale_secs =
     (let w0 = w\<lparr>stat_calls := stat_calls w @ [file_path]\<rparr>
      in case os_stat env file_path of
           None \<Rightarrow> (None, w0)
         | Some file_stat \<Rightarrow>
             (let sz = st_size file_stat;
                  oversized = (int sz > oversized_threshold);
                  atime = st_atime file_stat;
                  mtime = st_mtime file_stat;
                  threshold = time_time env (ticks w0) - real_of_int (months * 30 * 24 * 3600);
                  w1 = w0\<lparr>ticks := Suc (ticks w0)\<rparr>;
                  old = (atime < threshold \<and> mtime < threshold);
                  (stale, w2) =
                    (if endswith file_path ''.crdownload'' \<or> endswith file_path ''.part''
                     then (time_time env (ticks w1) - mtime > real_of_int download_stale_secs,
                           w1\<lparr>ticks := Suc (ticks w1)\<rparr>)
                     else (False, w1))
              in (Some \<lparr>size_bytes = sz, is_oversized = oversized, is_old = old,
                         is_stale_download = stale, last_access = atime, last_mod = mtime\<rparr>,
                  w2)))"

section \<open>\<^verbatim>\<open>analyze_files\<close>\<close>

record scan_state =
  oversized_files :: "(path \<times> nat) list"
  old_files :: "(path \<times> real \<times> real) list"
  junk_files :: "(path \<times> string) list"
  file_hashes :: "(string \<times> path list) list"
  scan_errors :: "string list"

text \<open>
  \<^verbatim>\<open>file_hashes\<close> is a \<^verbatim>\<open>defaultdict(list)\<close>; Python dictionaries keep insertion order,
  so it is an association list with one entry per key, new keys at the end.
  \<open>dict_append d h p\<close> is \<^verbatim>\<open>d[h].append(p)\<close>.
\<close>

fun dict_append :: "(string \<times> path list) list \<Rightarrow> string \<Rightarrow> path \<Rightarrow> (string \<times> path list) list" where
  "dict_append [] h p = [(h, [p])]"
| "dict_append ((k, ps) # rest) h p =
     (if k = h then (k, ps @ [p]) # rest else (k, ps) # dict_append rest h p)"

definition junk_ext :: "string list" where
  "junk_ext = [''.old'', ''.part'', ''.crdownload'', ''.trash'']"

definition junk_prefix :: "string list" where
  "junk_prefix = [''unconfirmed'', ''trash'', ''core'']"

definition junk_suffix :: "string list" where
  "junk_suffix = [''.crdownload'', ''.part'', ''trash'']"

definition junk_exact :: "string list" where
  "junk_exact = [''.trash'', ''.trash-1000'']"

text \<open>
  The body of the inner loop, for one file name of one directory. Its four commented
  blocks (\<^verbatim>\<open># Check for oversized files\<close>, \<^verbatim>\<open># Check for old files\<close>,
  \<^verbatim>\<open># Check for junk files\<close>, \<^verbatim>\<open># Check for duplicates\<close>) are one definition each;
  \<open>a\<close> is the dictionary \<^verbatim>\<open>attributes\<close>.
\<close>

definition check_oversized :: "path \<Rightarrow> attributes \<Rightarrow> scan_state \<Rightarrow> scan_state" where
  "check_oversized full_path a s =
     (if is_oversized a
      then s\<lparr>oversized_files := oversized_files s @ [(full_path, size_bytes a)]\<rparr>
      else s)"

definition check_old :: "path \<Rightarrow> attributes \<Rightarrow> scan_state \<Rightarrow> scan_state" where
  "check_old full_path a s =
     (if is_old a
      then s\<lparr>old_files := old_files s @ [(full_path, last_access a, last_mod a)]\<rparr>
      else s)"

definition check_junk :: "path \<Rightarrow> string \<Rightarrow> string \<Rightarrow> attributes \<Rightarrow> scan_state \<Rightarrow> scan_state" where
  "check_junk full_path name_lower ext a s =
     (if size_bytes a = 0
      then s\<lparr>junk_files := junk_files s @ [(full_path, ''Empty File'')]\<rparr>
      else if ext \<in> set junk_ext \<or>
              list_ex (startswith name_lower) junk_prefix \<or>
              list_ex (endswith name_lower) junk_suffix \<or>
              name_lower \<in> set junk_exact \<or>
              is_stale_download a
      then s\<lparr>junk_files := junk_files s @
                [(full_path, if \<not> is_stale_download a then ''Temporary File''
                             else ''Stale Incomplete Download'')]\<rparr>
      else s)"

definition check_duplicates ::
  "os_env \<Rightarrow> int \<Rightarrow> path \<Rightarrow> attributes \<Rightarrow> world \<times> scan_state \<Rightarrow> world \<times> scan_state" where
  "check_duplicates env min_duplicate_size full_path a ws =
     (let w = fst ws; s = snd ws
      in if int (size_bytes a) \<ge> min_duplicate_size
         then (case compute_file_hash env w full_path 65536 (size_bytes a > 10 * 1024 * 1024) of
                 (None, w') \<Rightarrow> (w', s)
               | (Some file_hash, w') \<Rightarrow>
                   (if file_hash \<noteq> []
                    then (w', s\<lparr>file_hashes := dict_append (file_hashes s) file_hash full_path\<rparr>)
                    else (w', s)))
         else (w, s))"

definition process_file ::
  "os_env \<Rightarrow> int \<Rightarrow> int \<Rightarrow> int \<Rightarrow> int \<Rightarrow> path \<Rightarrow> world \<times> scan_state \<Rightarrow> string
     \<Rightarrow> world \<times> scan_state" where
  "process_file env min_duplicate_size months oversized_threshold download_stale_secs
       dirpath ws filename =
     (let w = fst ws; s = snd ws;
          full_path = path_join dirpath filename;
          name_lower = lower filename;
          ext = lower (snd (splitext filename))
      in case get_file_attributes env w full_path months oversized_threshold download_stale_secs of
           (None, w1) \<Rightarrow>
             (w1, s\<lparr>scan_errors := scan_errors s @ [''Error accessing '' @ full_path]\<rparr>)
         | (Some a, w1) \<Rightarrow>
             check_duplicates env min_duplicate_size full_path a
               (w1, check_junk full_path name_lower ext a
                      (check_old full_path a (check_oversized full_path a s))))"

text \<open>The outer loop visits the triples of the walk; the inner loop the file names of one.\<close>

definition scan_directory ::
  "os_env \<Rightarrow> int \<Rightarrow> int \<Rightarrow> int \<Rightarrow> int \<Rightarrow> world \<times> scan_state
     \<Rightarrow> path \<times> string list \<times> string list \<Rightarrow> world \<times> scan_state" where
  "scan_directory env min_duplicate_size months oversized_threshold download_stale_secs ws entry =
     (case entry of (dirpath, dirnames, filenames) \<Rightarrow>
        foldl (process_file env min_duplicate_size months oversized_threshold
                 download_stale_secs dirpath) ws filenames)"

definition initial_state :: scan_state where
  "initial_state = \<lparr>oversized_files = [], old_files = [], junk_files = [],
                     file_hashes = [], scan_errors = []\<rparr>"

definition analyze_loop ::
  "os_env \<Rightarrow> world \<Rightarrow> path \<Rightarrow> int \<Rightarrow> int \<Rightarrow> int \<Rightarrow> int \<Rightarrow> world \<times> scan_state" where
  "analyze_loop env w root_dir min_duplicate_size months oversized_threshold download_stale_secs =
     foldl (scan_directory env min_duplicate_size months oversized_threshold download_stale_secs)
       (w, initial_state) (os_walk env root_dir)"

text \<open>
  The value returned: a tuple of four empty lists when the root is rejected, a tuple of
  five components after a scan.
\<close>

datatype analysis_result =
  Tuple4 (oversized_of: "(path \<times> nat) list") (old_of: "(path \<times> real \<times> real) list")
         (junk_of: "(path \<times> string) list") (duplicates_of: "(string \<times> path list) list")
| Tuple5 (oversized_of: "(path \<times> nat) list") (old_of: "(path \<times> real \<times> real) list")
         (junk_of: "(path \<times> string) list") (duplicates_of: "(string \<times> path list) list")
         (errors_of: "string list")

definition analyze_files ::
  "os_env \<Rightarrow> world \<Rightarrow> path option \<Rightarrow> int \<Rightarrow> int \<Rightarrow> int \<Rightarrow> int \<Rightarrow> analysis_result \<times> world" where
  "analyze_files env w root_arg min_duplicate_size months oversized_threshold download_stale_secs =
     (case validate_directory_path env root_arg of
        None \<Rightarrow> (Tuple4 [] [] [] [], w)
      | Some root_dir \<Rightarrow>
          (if root_dir = [] then (Tuple4 [] [] [] [], w)
           else
             (let (w', s) = analyze_loop env w root_dir min_duplicate_size months
                              oversized_threshold download_stale_secs;
                  duplicates = filter (\<lambda>(h, paths). length paths > 1) (file_hashes s)
              in (Tuple5 (oversized_files s) (old_files s) (junk_files s) duplicates
                    (scan_errors s), w'))))"

text \<open>
  Both callers (\<^verbatim>\<open>main\<close> in \<^verbatim>\<open>disk_broom.py\<close> and \<^verbatim>\<open>analyze_task\<close> in
  \<^verbatim>\<open>disk_broom_gui.py\<close>) bind the result to five targets; Python raises
  \<^verbatim>\<open>ValueError\<close> when the tuple has another length.
\<close>

datatype py_error = ValueError

definition tuple_len :: "analysis_result \<Rightarrow> nat" where
  "tuple_len r = (case r of Tuple4 a b c d \<Rightarrow> 4 | Tuple5 a b c d e \<Rightarrow> 5)"

definition unpack5 ::
  "analysis_result \<Rightarrow>
     py_error + ((path \<times> nat) list \<times> (path \<times> real \<times> real) list \<times> (path \<times> string) list \<times>
                 (string \<times> path list) list \<times> string list)" where
  "unpack5 r =
     (case r of
        Tuple4 a b c d \<Rightarrow> Inl ValueError
      | Tuple5 a b c d e \<Rightarrow> Inr (a, b, c, d, e))"

section \<open>Notions used to state the properties\<close>

text \<open>
  \<open>visits env root_dir\<close> lists the pairs (dirpath, filename) in the order in which the two
  nested loops reach them; \<open>visit_path v\<close> is the \<^verbatim>\<open>full_path\<close> of a visit;
  \<open>scan_prefix \<dots> k\<close> is the world and the accumulators after the first \<open>k\<close> visits.
\<close>

definition visits :: "os_env \<Rightarrow> path \<Rightarrow> (path \<times> string) list" where
  "visits env root_dir =
     concat (map (\<lambda>(dirpath, dirnames, filenames). map (Pair dirpath) filenames)
               (os_walk env root_dir))"

definition visit_path :: "path \<times> string \<Rightarrow> path" where
  "visit_path v = path_join (fst v) (snd v)"

definition visit_step ::
  "os_env \<Rightarrow> int \<Rightarrow> int \<Rightarrow> int \<Rightarrow> int \<Rightarrow> world \<times> scan_state \<Rightarrow> path \<times> string
     \<Rightarrow> world \<times> scan_state" where
  "visit_step env min_duplicate_size months oversized_threshold download_stale_secs ws v =
     process_file env min_duplicate_size months oversized_threshold download_stale_secs
       (fst v) ws (snd v)"

definition scan_prefix ::
  "os_env \<Rightarrow> world \<Rightarrow> path \<Rightarrow> int \<Rightarrow> int \<Rightarrow> int \<Rightarrow> int \<Rightarrow> nat \<Rightarrow> world \<times> scan_state" where
  "scan_prefix env w root_dir min_duplicate_size months oversized_threshold download_stale_secs k =
     foldl (visit_step env min_duplicate_size months oversized_threshold download_stale_secs)
       (w, initial_state) (take k (visits env root_dir))"

text \<open>
  The junk naming patterns in the words of the specification: extension, prefix, suffix
  or exact match of the lower-cased file name.
\<close>

definition junk_name :: "string \<Rightarrow> bool" where
  "junk_name filename =
     (lower (snd (splitext filename)) \<in> {''.old'', ''.part'', ''.crdownload'', ''.trash''} \<or>
      (\<exists>pfx \<in> {''unconfirmed'', ''trash'', ''core''}. prefix pfx (lower filename)) \<or>
      (\<exists>sfx \<in> {''.crdownload'', ''.part'', ''trash''}. suffix sfx (lower filename)) \<or>
      lower filename \<in> {''.trash'', ''.trash-1000''})"


definition fingerprint :: "os_env \<Rightarrow> int \<Rightarrow> path \<Rightarrow> string option" where
  "fingerprint env min_duplicate_size p =
     (case os_stat env p of
        None \<Rightarrow> None
      | Some st \<Rightarrow>
          if int (st_size st) < min_duplicate_size then None
          else (case file_content env p of
                  None \<Rightarrow> None
                | Some content \<Rightarrow>
                    Some (sha256_hexdigest env
                            (if st_size st > 10 * 1024 * 1024 then take (1024 * 1024) content
                             else content))))"

text \<open>The paths filed under fingerprint \<open>h\<close>, in discovery order.\<close>

definition discovered :: "os_env \<Rightarrow> int \<Rightarrow> (path \<times> string) list \<Rightarrow> string \<Rightarrow> path list" where
  "discovered env min_duplicate_size vs h =
     filter (\<lambda>p. fingerprint env min_duplicate_size p = Some h) (map visit_path vs)"

section \<open>A concrete directory tree\<close>

text \<open>
  A small tree under \<^verbatim>\<open>/data\<close> on which the statements below are exercised. The clock
  starts at 1700000000 and advances one second per reading. \<open>toy_hexdigest\<close> stands in
  for SHA-256 there: it renders the low nibbles of the first eight bytes.
\<close>

definition toy_hexdigest :: "bytes \<Rightarrow> string" where
  "toy_hexdigest bs =
     ''sha256:'' @ map (\<lambda>b. ''0123456789abcdef'' ! (unat b mod 16)) (take 8 bs)"

definition demo_stat :: "path \<Rightarrow> stat_result option" where
  "demo_stat p =
     (if p = ''/data/empty.part''
        then Some \<lparr>st_size = 0, st_atime = 1699999000, st_mtime = 1699999000\<rparr>
      else if p = ''/data/a.txt''
        then Some \<lparr>st_size = 5, st_atime = 1699999000, st_mtime = 1699999000\<rparr>
      else if p = ''/data/b.txt''
        then Some \<lparr>st_size = 5, st_atime = 1699999000, st_mtime = 1600000000\<rparr>
      else if p = ''/data/partial.crdownload''
        then Some \<lparr>st_size = 6, st_atime = 1699999000, st_mtime = 1699992800\<rparr>
      else if p = ''/data/.part''
        then Some \<lparr>st_size = 8, st_atime = 1699999000, st_mtime = 1699990000\<rparr>
      else if p = ''/data/core.1234''
        then Some \<lparr>st_size = 9, st_atime = 1699999000, st_mtime = 1699999000\<rparr>
      else if p = ''/data/locked.bin''
        then Some \<lparr>st_size = 7, st_atime = 1699999000, st_mtime = 1699999000\<rparr>
      else if p = ''/data/REPORT.PART''
        then Some \<lparr>st_size = 4, st_atime = 1699999000, st_mtime = 1699990000\<rparr>
      else if p = ''/data/sub/t1.txt''
        then Some \<lparr>st_size = 3, st_atime = 1699999000, st_mtime = 1699999000\<rparr>
      else if p = ''/data/sub/t2.txt''
        then Some \<lparr>st_size = 3, st_atime = 1699999000, st_mtime = 1699999000\<rparr>
      else if p = ''/data/sub/big1.iso''
        then Some \<lparr>st_size = 11000000, st_atime = 1600000000, st_mtime = 1600000000\<rparr>
      else if p = ''/data/sub/big2.iso''
        then Some \<lparr>st_size = 11000000, st_atime = 1699999000, st_mtime = 1699999000\<rparr>
      else None)"

definition demo_content :: "path \<Rightarrow> bytes option" where
  "demo_content p =
     (if p = ''/data/empty.part'' then Some []
      else if p = ''/data/a.txt'' then Some [104, 101, 108, 108, 111]
      else if p = ''/data/b.txt'' then Some [104, 101, 108, 108, 111]
      else if p = ''/data/partial.crdownload'' then Some [1, 2, 3, 4, 5, 6]
      else if p = ''/data/.part'' then Some [8, 7, 6, 5, 4, 3, 2, 1]
      else if p = ''/data/core.1234'' then Some [9, 8, 7, 6, 5, 4, 3, 2, 1]
      else if p = ''/data/REPORT.PART'' then Some [80, 65, 82, 84]
      else if p = ''/data/sub/t1.txt'' then Some [120, 121, 122]
      else if p = ''/data/sub/t2.txt'' then Some [120, 121, 122]
      else if p = ''/data/sub/big1.iso''
        then Some ([73, 83, 79, 1, 2, 3, 4, 5] @ replicate 10999991 0 @ [1])
      else if p = ''/data/sub/big2.iso''
        then Some ([73, 83, 79, 1, 2, 3, 4, 5] @ replicate 10999991 0 @ [2])
      else None)"

definition demo_walk :: "path \<Rightarrow> (path \<times> string list \<times> string list) list" where
  "demo_walk p =
     (if p = ''/data''
      then [(''/data'', [''sub''],
               [''empty.part'', ''a.txt'', ''b.txt'', ''partial.crdownload'', ''.part'',
                ''core.1234'', ''locked.bin'', ''gone.txt'', ''REPORT.PART'']),
            (''/data/sub'', [], [''t1.txt'', ''t2.txt'', ''big1.iso'', ''big2.iso''])]
      else [])"

definition demo_env :: os_env where
  "demo_env =
     \<lparr>expanduser = (\<lambda>p. p),
      path_exists = (\<lambda>p. p = ''/data''),
      path_isdir = (\<lambda>p. p = ''/data''),
      os_walk = demo_walk,
      os_stat = demo_stat,
      file_content = demo_content,
      time_time = (\<lambda>n. 1700000000 + real n),
      sha256_hexdigest = toy_hexdigest\<rparr>"

definition demo_world :: world where
  "demo_world = \<lparr>ticks = 0, stat_calls = [], open_calls = []\<rparr>"

section \<open>Library functions and the two helpers\<close>

lemma startswith_prefix: "startswith s pfx = prefix pfx s"
proof
  assume "startswith s pfx"
  then have "s = pfx @ drop (length pfx) s"
    by (metis startswith_def append_take_drop_id)
  then show "prefix pfx s" by (metis prefixI)
next
  assume "prefix pfx s"
  then show "startswith s pfx" by (auto simp: startswith_def prefix_def)
qed

lemma endswith_suffix: "endswith s sfx = suffix sfx s"
proof
  assume "endswith s sfx"
  then have "s = take (length s - length sfx) s @ sfx"
    by (metis endswith_def append_take_drop_id)
  then show "suffix sfx s" by (metis suffixI)
next
  assume "suffix sfx s"
  then show "endswith s sfx" by (auto simp: endswith_def suffix_def)
qed

lemma junk_match_iff:
  "(lower (snd (splitext f)) \<in> set junk_ext \<or> list_ex (startswith (lower f)) junk_prefix \<or>
    list_ex (endswith (lower f)) junk_suffix \<or> lower f \<in> set junk_exact) = junk_name f"
  by (simp add: junk_name_def junk_ext_def junk_prefix_def junk_suffix_def junk_exact_def
        startswith_prefix endswith_suffix)

lemma read_blocks_all: "0 < b \<Longrightarrow> read_blocks rest b fed = fed @ rest"
proof (induction rest b fed rule: read_blocks.induct)
  case (1 rest block_size fed)
  show ?case
  proof (cases "take block_size rest = []")
    case True
    with "1.prems" have "rest = []" by (cases rest) auto
    then show ?thesis by (simp add: read_blocks.simps)
  next
    case False
    then have "read_blocks rest block_size fed =
        read_blocks (drop block_size rest) block_size (fed @ take block_size rest)"
      by (subst read_blocks.simps) (simp add: Let_def)
    also have "\<dots> = (fed @ take block_size rest) @ drop block_size rest"
      using "1.IH" [OF refl False] "1.prems" by simp
    finally show ?thesis by simp
  qed
qed

lemma compute_file_hash_result:
  "fst (compute_file_hash env w p b s) =
     (case file_content env p of
        None \<Rightarrow> None
      | Some c \<Rightarrow> Some (sha256_hexdigest env
                         (if s then take (1024 * 1024) c else read_blocks c b [])))"
  by (simp add: compute_file_hash_def Let_def split: option.splits)

lemma compute_file_hash_world:
  "snd (compute_file_hash env w p b s) = w\<lparr>open_calls := open_calls w @ [p]\<rparr>"
  by (simp add: compute_file_hash_def Let_def split: option.splits)

lemma get_file_attributes_None:
  "os_stat env p = None \<Longrightarrow>
     get_file_attributes env w p mo ot dss = (None, w\<lparr>stat_calls := stat_calls w @ [p]\<rparr>)"
  by (simp add: get_file_attributes_def)

lemma get_file_attributes_Some:
  assumes "os_stat env p = Some st"
  shows "\<exists>w1. get_file_attributes env w p mo ot dss =
           (Some \<lparr>size_bytes = st_size st,
                  is_oversized = (ot < int (st_size st)),
                  is_old = (st_atime st < time_time env (ticks w) - real_of_int (mo * 30 * 24 * 3600) \<and>
                            st_mtime st < time_time env (ticks w) - real_of_int (mo * 30 * 24 * 3600)),
                  is_stale_download = ((suffix ''.crdownload'' p \<or> suffix ''.part'' p) \<and>
                            real_of_int dss < time_time env (Suc (ticks w)) - st_mtime st),
                  last_access = st_atime st, last_mod = st_mtime st\<rparr>, w1) \<and>
         stat_calls w1 = stat_calls w @ [p] \<and> open_calls w1 = open_calls w"
  using assms by (simp add: get_file_attributes_def Let_def endswith_suffix)

section \<open>One iteration of the loop\<close>

lemma junk_condition:
  "(lower (snd (splitext f)) \<in> set junk_ext \<or> list_ex (startswith (lower f)) junk_prefix \<or>
    list_ex (endswith (lower f)) junk_suffix \<or> lower f \<in> set junk_exact \<or> X) = (junk_name f \<or> X)"
  using junk_match_iff [of f] by blast

lemma check_oversized_fields:
  "oversized_files (check_oversized p a s) =
     oversized_files s @ (if is_oversized a then [(p, size_bytes a)] else [])"
  "old_files (check_oversized p a s) = old_files s"
  "junk_files (check_oversized p a s) = junk_files s"
  "file_hashes (check_oversized p a s) = file_hashes s"
  "scan_errors (check_oversized p a s) = scan_errors s"
  by (simp_all add: check_oversized_def)

lemma check_old_fields:
  "oversized_files (check_old p a s) = oversized_files s"
  "old_files (check_old p a s) =
     old_files s @ (if is_old a then [(p, last_access a, last_mod a)] else [])"
  "junk_files (check_old p a s) = junk_files s"
  "file_hashes (check_old p a s) = file_hashes s"
  "scan_errors (check_old p a s) = scan_errors s"
  by (simp_all add: check_old_def)

lemma check_junk_fields:
  "oversized_files (check_junk p (lower f) (lower (snd (splitext f))) a s) = oversized_files s"
  "old_files (check_junk p (lower f) (lower (snd (splitext f))) a s) = old_files s"
  "junk_files (check_junk p (lower f) (lower (snd (splitext f))) a s) =
     junk_files s @
       (if size_bytes a = 0 then [(p, ''Empty File'')]
        else if junk_name f \<or> is_stale_download a
        then [(p, if is_stale_download a then ''Stale Incomplete Download'' else ''Temporary File'')]
        else [])"
  "file_hashes (check_junk p (lower f) (lower (snd (splitext f))) a s) = file_hashes s"
  "scan_errors (check_junk p (lower f) (lower (snd (splitext f))) a s) = scan_errors s"
  unfolding check_junk_def junk_condition by simp_all

lemma check_duplicates_world:
  "fst (check_duplicates env mds p a ws) =
     (if mds \<le> int (size_bytes a) then (fst ws)\<lparr>open_calls := open_calls (fst ws) @ [p]\<rparr>
      else fst ws)"
  by (simp add: check_duplicates_def compute_file_hash_def Let_def split: prod.split option.split)

lemma check_duplicates_fields:
  "oversized_files (snd (check_duplicates env mds p a ws)) = oversized_files (snd ws)"
  "old_files (snd (check_duplicates env mds p a ws)) = old_files (snd ws)"
  "junk_files (snd (check_duplicates env mds p a ws)) = junk_files (snd ws)"
  "scan_errors (snd (check_duplicates env mds p a ws)) = scan_errors (snd ws)"
  by (simp_all add: check_duplicates_def Let_def split: prod.split option.split)

lemma check_duplicates_hashes:
  "file_hashes (snd (check_duplicates env mds p a ws)) =
     (if mds \<le> int (size_bytes a)
      then (case file_content env p of
              None \<Rightarrow> file_hashes (snd ws)
            | Some c \<Rightarrow>
                (let h = sha256_hexdigest env
                           (if 10 * 1024 * 1024 < size_bytes a then take (1024 * 1024) c else c)
                 in if h \<noteq> [] then dict_append (file_hashes (snd ws)) h p
                    else file_hashes (snd ws)))
      else file_hashes (snd ws))"
  by (simp add: check_duplicates_def compute_file_hash_def Let_def read_blocks_all
        split: prod.split option.split)

lemma process_file_None:
  assumes "get_file_attributes env (fst ws) (path_join d f) mo ot dss = (None, w1)"
  shows "process_file env mds mo ot dss d ws f =
           (w1, (snd ws)\<lparr>scan_errors := scan_errors (snd ws) @ [''Error accessing '' @ path_join d f]\<rparr>)"
  using assms by (simp add: process_file_def Let_def)

lemma process_file_Some:
  assumes "get_file_attributes env (fst ws) (path_join d f) mo ot dss = (Some a, w1)"
  shows "process_file env mds mo ot dss d ws f =
           check_duplicates env mds (path_join d f) a
             (w1, check_junk (path_join d f) (lower f) (lower (snd (splitext f))) a
                    (check_old (path_join d f) a (check_oversized (path_join d f) a (snd ws))))"
  using assms by (simp add: process_file_def Let_def)

lemma attributes_cases:
  obtains (failed) w1 where "os_stat env p = None"
      "get_file_attributes env w p mo ot dss = (None, w1)"
      "w1 = w\<lparr>stat_calls := stat_calls w @ [p]\<rparr>"
  | (read) st a w1 where "os_stat env p = Some st"
      "get_file_attributes env w p mo ot dss = (Some a, w1)"
      "size_bytes a = st_size st" "is_oversized a = (ot < int (st_size st))"
      "last_access a = st_atime st" "last_mod a = st_mtime st"
      "stat_calls w1 = stat_calls w @ [p]" "open_calls w1 = open_calls w"
proof (cases "os_stat env p")
  case None
  then show ?thesis using failed get_file_attributes_None by blast
next
  case (Some st)
  from get_file_attributes_Some [OF Some, of w mo ot dss]
  obtain w1 a where "get_file_attributes env w p mo ot dss = (Some a, w1)"
      "size_bytes a = st_size st" "is_oversized a = (ot < int (st_size st))"
      "last_access a = st_atime st" "last_mod a = st_mtime st"
      "stat_calls w1 = stat_calls w @ [p]" "open_calls w1 = open_calls w"
    by force
  then show ?thesis using read Some by blast
qed

lemma process_file_stat_calls:
  "stat_calls (fst (process_file env mds mo ot dss d ws f)) = stat_calls (fst ws) @ [path_join d f]"
proof (cases rule: attributes_cases [of env "path_join d f" "fst ws" mo ot dss])
  case (failed w1)
  then show ?thesis by (simp add: process_file_None)
next
  case (read st a w1)
  then show ?thesis by (simp add: process_file_Some check_duplicates_world)
qed


lemma process_file_errors:
  "scan_errors (snd (process_file env mds mo ot dss d ws f)) =
     scan_errors (snd ws) @
       (case os_stat env (path_join d f) of
          None \<Rightarrow> [''Error accessing '' @ path_join d f]
        | Some st \<Rightarrow> [])"
proof (cases rule: attributes_cases [of env "path_join d f" "fst ws" mo ot dss])
  case (failed w1)
  then show ?thesis by (simp add: process_file_None)
next
  case (read st a w1)
  then show ?thesis
    by (simp add: process_file_Some check_duplicates_fields check_junk_fields check_old_fields
          check_oversized_fields)
qed

lemma process_file_oversized:
  "oversized_files (snd (process_file env mds mo ot dss d ws f)) =
     oversized_files (snd ws) @
       (case os_stat env (path_join d f) of
          None \<Rightarrow> []
        | Some st \<Rightarrow> if ot < int (st_size st) then [(path_join d f, st_size st)] else [])"
proof (cases rule: attributes_cases [of env "path_join d f" "fst ws" mo ot dss])
  case (failed w1)
  then show ?thesis by (simp add: process_file_None)
next
  case (read st a w1)
  then show ?thesis
    by (simp add: process_file_Some check_duplicates_fields check_junk_fields check_old_fields
          check_oversized_fields)
qed


lemma process_file_junk:
  "junk_files (snd (process_file env mds mo ot dss d ws f)) =
     junk_files (snd ws) @
       (case fst (get_file_attributes env (fst ws) (path_join d f) mo ot dss) of
          None \<Rightarrow> []
        | Some a \<Rightarrow>
            if size_bytes a = 0 then [(path_join d f, ''Empty File'')]
            else if junk_name f \<or> is_stale_download a
            then [(path_join d f, if is_stale_download a then ''Stale Incomplete Download''
                                  else ''Temporary File'')]
            else [])"
proof (cases rule: attributes_cases [of env "path_join d f" "fst ws" mo ot dss])
  case (failed w1)
  then show ?thesis by (simp add: process_file_None)
next
  case (read st a w1)
  then show ?thesis
    by (simp add: process_file_Some check_duplicates_fields check_junk_fields check_old_fields
          check_oversized_fields)
qed

lemma process_file_hashes:
  "file_hashes (snd (process_file env mds mo ot dss d ws f)) =
     (case fingerprint env mds (path_join d f) of
        None \<Rightarrow> file_hashes (snd ws)
      | Some h \<Rightarrow> if h = [] then file_hashes (snd ws)
                  else dict_append (file_hashes (snd ws)) h (path_join d f))"
proof (cases rule: attributes_cases [of env "path_join d f" "fst ws" mo ot dss])
  case (failed w1)
  then show ?thesis by (simp add: process_file_None fingerprint_def)
next
  case (read st a w1)
  then show ?thesis
    by (simp add: process_file_Some check_duplicates_hashes check_junk_fields check_old_fields
          check_oversized_fields fingerprint_def Let_def split: option.split)
qed

section \<open>The two nested loops\<close>

lemma inner_loop_visits:
  "foldl (process_file env mds mo ot dss d) ws fs =
     foldl (visit_step env mds mo ot dss) ws (map (Pair d) fs)"
  by (induction fs arbitrary: ws) (simp_all add: visit_step_def)

lemma outer_loop_visits:
  "foldl (scan_directory env mds mo ot dss) ws entries =
     foldl (visit_step env mds mo ot dss) ws
       (concat (map (\<lambda>(dirpath, dirnames, filenames). map (Pair dirpath) filenames) entries))"
proof (induction entries arbitrary: ws)
  case Nil
  show ?case by simp
next
  case (Cons e es)
  obtain d ds fs where e: "e = (d, ds, fs)" by (cases e)
  have "scan_directory env mds mo ot dss ws e =
          foldl (visit_step env mds mo ot dss) ws (map (Pair d) fs)"
    by (simp add: e scan_directory_def inner_loop_visits)
  then show ?case by (simp add: e Cons.IH)
qed

lemma analyze_loop_visits:
  "analyze_loop env w r mds mo ot dss =
     foldl (visit_step env mds mo ot dss) (w, initial_state) (visits env r)"
  by (simp add: analyze_loop_def visits_def outer_loop_visits)

lemma scan_prefix_0: "scan_prefix env w r mds mo ot dss 0 = (w, initial_state)"
  by (simp add: scan_prefix_def)

lemma scan_prefix_Suc:
  "k < length (visits env r) \<Longrightarrow>
     scan_prefix env w r mds mo ot dss (Suc k) =
       visit_step env mds mo ot dss (scan_prefix env w r mds mo ot dss k) (visits env r ! k)"
  by (simp add: scan_prefix_def take_Suc_conv_app_nth)

lemma scan_prefix_all:
  "scan_prefix env w r mds mo ot dss (length (visits env r)) = analyze_loop env w r mds mo ot dss"
  by (simp add: scan_prefix_def analyze_loop_visits)

lemma analyze_loop_from_prefix:
  "analyze_loop env w r mds mo ot dss =
     foldl (visit_step env mds mo ot dss) (scan_prefix env w r mds mo ot dss k)
       (drop k (visits env r))"
proof -
  have "visits env r = take k (visits env r) @ drop k (visits env r)" by simp
  then have "foldl (visit_step env mds mo ot dss) (w, initial_state) (visits env r) =
      foldl (visit_step env mds mo ot dss) (w, initial_state)
        (take k (visits env r) @ drop k (visits env r))"
    by simp
  then show ?thesis
    unfolding analyze_loop_visits scan_prefix_def foldl_append .
qed

lemma analyze_files_accepted:
  assumes "validate_directory_path env root_arg = Some r" "r \<noteq> []"
  shows "analyze_files env w root_arg mds mo ot dss =
           (Tuple5 (oversized_files (snd (analyze_loop env w r mds mo ot dss)))
                   (old_files (snd (analyze_loop env w r mds mo ot dss)))
                   (junk_files (snd (analyze_loop env w r mds mo ot dss)))
                   (filter (\<lambda>(h, paths). 1 < length paths)
                      (file_hashes (snd (analyze_loop env w r mds mo ot dss))))
                   (scan_errors (snd (analyze_loop env w r mds mo ot dss))),
            fst (analyze_loop env w r mds mo ot dss))"
  using assms by (simp add: analyze_files_def Let_def split: prod.split)

lemma analyze_files_rejected:
  assumes "validate_directory_path env root_arg = None \<or> validate_directory_path env root_arg = Some []"
  shows "analyze_files env w root_arg mds mo ot dss = (Tuple4 [] [] [] [], w)"
  using assms by (auto simp: analyze_files_def)

lemma loop_stat_calls:
  "stat_calls (fst (foldl (visit_step env mds mo ot dss) ws vs)) =
     stat_calls (fst ws) @ map visit_path vs"
  by (induction vs arbitrary: ws)
     (simp_all add: visit_step_def visit_path_def process_file_stat_calls)


lemma loop_oversized:
  "oversized_files (snd (foldl (visit_step env mds mo ot dss) ws vs)) =
     oversized_files (snd ws) @
       concat (map (\<lambda>p. case os_stat env p of
                           None \<Rightarrow> []
                         | Some st \<Rightarrow> if ot < int (st_size st) then [(p, st_size st)] else [])
                 (map visit_path vs))"
  by (induction vs arbitrary: ws)
     (simp_all add: visit_step_def visit_path_def process_file_oversized)

text \<open>Accumulators that only grow by appending.\<close>

lemma foldl_grows:
  assumes "\<And>s x. \<exists>ys. g (f s x) = g s @ ys"
  shows "\<exists>ys. g (foldl f s xs) = g s @ ys"
proof (induction xs arbitrary: s)
  case Nil
  show ?case by simp
next
  case (Cons x xs)
  from assms obtain ys where "g (f s x) = g s @ ys" by blast
  moreover from Cons.IH obtain zs where "g (foldl f (f s x) xs) = g (f s x) @ zs" by blast
  ultimately show ?case by simp
qed


lemma junk_files_kept:
  "set (junk_files (snd (scan_prefix env w r mds mo ot dss k))) \<subseteq>
     set (junk_files (snd (analyze_loop env w r mds mo ot dss)))"
proof -
  have "\<exists>ys. (junk_files \<circ> snd) (foldl (visit_step env mds mo ot dss)
                  (scan_prefix env w r mds mo ot dss k) (drop k (visits env r))) =
              (junk_files \<circ> snd) (scan_prefix env w r mds mo ot dss k) @ ys"
    by (rule foldl_grows) (simp add: visit_step_def process_file_junk)
  then show ?thesis
    using analyze_loop_from_prefix [of env w r mds mo ot dss k] by auto
qed


section \<open>The duplicate index\<close>

lemma dict_append_keys:
  "map fst (dict_append d h p) = (if h \<in> fst ` set d then map fst d else map fst d @ [h])"
  by (induction d h p rule: dict_append.induct) auto

lemma dict_append_distinct:
  "distinct (map fst d) \<Longrightarrow> distinct (map fst (dict_append d h p))"
  by (auto simp: dict_append_keys)

lemma dict_append_lookup:
  "map_of (dict_append d h p) =
     (map_of d)(h \<mapsto> (case map_of d h of None \<Rightarrow> [p] | Some ps \<Rightarrow> ps @ [p]))"
  by (induction d h p rule: dict_append.induct) (auto simp: fun_eq_iff)

lemma discovered_snoc:
  "discovered env mds (vs @ [v]) h =
     discovered env mds vs h @
       (if fingerprint env mds (visit_path v) = Some h then [visit_path v] else [])"
  by (simp add: discovered_def)

lemma file_hashes_invariant:
  "distinct (map fst (file_hashes (snd (foldl (visit_step env mds mo ot dss) (w, initial_state) vs)))) \<and>
   (\<forall>h. map_of (file_hashes (snd (foldl (visit_step env mds mo ot dss) (w, initial_state) vs))) h =
          (if h = [] \<or> discovered env mds vs h = [] then None
           else Some (discovered env mds vs h)))"
proof (induction vs rule: rev_induct)
  case Nil
  show ?case by (simp add: initial_state_def discovered_def)
next
  case (snoc v vs)
  let ?s = "foldl (visit_step env mds mo ot dss) (w, initial_state) vs"
  have step: "file_hashes (snd (visit_step env mds mo ot dss ?s v)) =
      (case fingerprint env mds (visit_path v) of
         None \<Rightarrow> file_hashes (snd ?s)
       | Some h \<Rightarrow> if h = [] then file_hashes (snd ?s)
                   else dict_append (file_hashes (snd ?s)) h (visit_path v))"
    unfolding visit_step_def visit_path_def by (rule process_file_hashes)
  show ?case
  proof (cases "fingerprint env mds (visit_path v)")
    case None
    with snoc step show ?thesis by (simp add: discovered_snoc)
  next
    case (Some h)
    show ?thesis
    proof (cases "h = []")
      case True
      with Some snoc step show ?thesis by (auto simp: discovered_snoc)
    next
      case False
      with Some snoc step show ?thesis
        by (auto simp: discovered_snoc dict_append_distinct dict_append_lookup)
    qed
  qed
qed

lemma file_hashes_entries:
  "(h, ps) \<in> set (file_hashes (snd (analyze_loop env w r mds mo ot dss))) \<longleftrightarrow>
     h \<noteq> [] \<and> ps \<noteq> [] \<and> ps = discovered env mds (visits env r) h"
proof -
  let ?fh = "file_hashes (snd (analyze_loop env w r mds mo ot dss))"
  from file_hashes_invariant [of env mds mo ot dss w "visits env r"]
  have d: "distinct (map fst ?fh)"
    and m: "\<And>h. map_of ?fh h =
          (if h = [] \<or> discovered env mds (visits env r) h = [] then None
           else Some (discovered env mds (visits env r) h))"
    by (simp_all add: analyze_loop_visits)
  have "(h, ps) \<in> set ?fh \<longleftrightarrow> map_of ?fh h = Some ps"
    using d by simp
  then show ?thesis by (auto simp: m)
qed



section \<open>The concrete tree, evaluated\<close>

lemmas demo_defs = demo_env_def demo_stat_def demo_content_def demo_walk_def demo_world_def
  toy_hexdigest_def

lemmas eval_defs = validate_directory_path_def visits_def scan_prefix_def visit_step_def
  process_file_def check_oversized_def check_old_def check_junk_def check_duplicates_def
  get_file_attributes_def compute_file_hash_def path_join_def startswith_def endswith_def
  initial_state_def lower_def lower_char_def splitext_def rfind_def
  junk_ext_def junk_prefix_def junk_suffix_def junk_exact_def read_blocks.simps Let_def

lemma demo_valid: "validate_directory_path demo_env (Some ''/data'') = Some ''/data''"
  by (simp add: validate_directory_path_def demo_defs)

lemma demo_visits:
  "visits demo_env ''/data'' =
     [(''/data'', ''empty.part''), (''/data'', ''a.txt''), (''/data'', ''b.txt''),
      (''/data'', ''partial.crdownload''), (''/data'', ''.part''), (''/data'', ''core.1234''),
      (''/data'', ''locked.bin''), (''/data'', ''gone.txt''), (''/data'', ''REPORT.PART''),
      (''/data/sub'', ''t1.txt''), (''/data/sub'', ''t2.txt''), (''/data/sub'', ''big1.iso''),
      (''/data/sub'', ''big2.iso'')]"
  by (simp add: visits_def demo_defs)

lemma demo_paths:
  "map visit_path (visits demo_env ''/data'') =
     [''/data/empty.part'', ''/data/a.txt'', ''/data/b.txt'', ''/data/partial.crdownload'',
      ''/data/.part'', ''/data/core.1234'', ''/data/locked.bin'', ''/data/gone.txt'',
      ''/data/REPORT.PART'', ''/data/sub/t1.txt'', ''/data/sub/t2.txt'',
      ''/data/sub/big1.iso'', ''/data/sub/big2.iso'']"
  by (simp add: demo_visits visit_path_def path_join_def startswith_def endswith_def)

lemma demo_report:
  "analyze_files demo_env demo_world (Some ''/data'') 4 6 1073741824 3600 =
     (Tuple5 []
        [(''/data/sub/big1.iso'', 1600000000, 1600000000)]
        [(''/data/empty.part'', ''Empty File''),
         (''/data/partial.crdownload'', ''Stale Incomplete Download''),
         (''/data/.part'', ''Stale Incomplete Download''),
         (''/data/core.1234'', ''Temporary File''),
         (''/data/REPORT.PART'', ''Temporary File'')]
        [(''sha256:85ccf'', [''/data/a.txt'', ''/data/b.txt'']),
         (''sha256:93f12345'', [''/data/sub/big1.iso'', ''/data/sub/big2.iso''])]
        [''Error accessing /data/gone.txt''],
      \<lparr>ticks = 15,
         stat_calls =
           [''/data/empty.part'', ''/data/a.txt'', ''/data/b.txt'', ''/data/partial.crdownload'',
            ''/data/.part'', ''/data/core.1234'', ''/data/locked.bin'', ''/data/gone.txt'',
            ''/data/REPORT.PART'', ''/data/sub/t1.txt'', ''/data/sub/t2.txt'',
            ''/data/sub/big1.iso'', ''/data/sub/big2.iso''],
         open_calls =
           [''/data/a.txt'', ''/data/b.txt'', ''/data/partial.crdownload'', ''/data/.part'',
            ''/data/core.1234'', ''/data/locked.bin'', ''/data/REPORT.PART'',
            ''/data/sub/big1.iso'', ''/data/sub/big2.iso'']\<rparr>)"
  by (simp add: analyze_files_def analyze_loop_def scan_directory_def eval_defs demo_defs)

lemma demo_file_hashes:
  "file_hashes (snd (analyze_loop demo_env demo_world ''/data'' 4 6 1073741824 3600)) =
     [(''sha256:85ccf'', [''/data/a.txt'', ''/data/b.txt'']),
      (''sha256:123456'', [''/data/partial.crdownload'']),
      (''sha256:87654321'', [''/data/.part'']),
      (''sha256:98765432'', [''/data/core.1234'']),
      (''sha256:0124'', [''/data/REPORT.PART'']),
      (''sha256:93f12345'', [''/data/sub/big1.iso'', ''/data/sub/big2.iso''])]"
  by (simp add: analyze_loop_def scan_directory_def eval_defs demo_defs)

section \<open>Junk classification\<close>



text \<open>
  C2. A visited file of positive size gets a junk entry exactly when its name matches a
  junk naming pattern or its stale-download flag is set; the reason is
  \<^verbatim>\<open>Stale Incomplete Download\<close> when the flag is set and \<^verbatim>\<open>Temporary File\<close> otherwise.
\<close>

theorem junk_pattern_reason:
  assumes "validate_directory_path env root_arg = Some root_dir" and "root_dir \<noteq> []"
    and "k < length (visits env root_dir)"
    and "visits env root_dir ! k = (dirpath, filename)"
    and "get_file_attributes env (fst (scan_prefix env w root_dir mds mo ot dss k))
           (path_join dirpath filename) mo ot dss = (Some a, w1)"
    and "0 < size_bytes a"
  shows "junk_files (snd (scan_prefix env w root_dir mds mo ot dss (Suc k))) =
           junk_files (snd (scan_prefix env w root_dir mds mo ot dss k)) @
             (if junk_name filename \<or> is_stale_download a
              then [(path_join dirpath filename,
                     if is_stale_download a then ''Stale Incomplete Download''
                     else ''Temporary File'')]
              else []) \<and>
         (junk_name filename \<or> is_stale_download a \<longrightarrow>
            (path_join dirpath filename,
             if is_stale_download a then ''Stale Incomplete Download'' else ''Temporary File'')
              \<in> set (junk_of (fst (analyze_files env w root_arg mds mo ot dss))))"
proof -
  let ?ws = "scan_prefix env w root_dir mds mo ot dss k"
  let ?p = "path_join dirpath filename"
  let ?e = "(?p, if is_stale_download a then ''Stale Incomplete Download'' else ''Temporary File'')"
  have step: "junk_files (snd (scan_prefix env w root_dir mds mo ot dss (Suc k))) =
      junk_files (snd ?ws) @ (if junk_name filename \<or> is_stale_download a then [?e] else [])"
    using assms(3-6) by (simp add: scan_prefix_Suc visit_step_def process_file_junk)
  have "?e \<in> set (junk_files (snd (analyze_loop env w root_dir mds mo ot dss)))"
    if "junk_name filename \<or> is_stale_download a"
  proof -
    from that step have "?e \<in> set (junk_files (snd (scan_prefix env w root_dir mds mo ot dss (Suc k))))"
      by simp
    then show ?thesis using junk_files_kept by blast
  qed
  then show ?thesis
    using step by (simp add: analyze_files_accepted [OF assms(1,2)])
qed

theorem junk_pattern_reason_witness:
  "(''/data/partial.crdownload'', ''Stale Incomplete Download'') \<in>
     set (junk_of (fst (analyze_files demo_env demo_world (Some ''/data'') 4 6 1073741824 3600)))"
proof -
  have v: "validate_directory_path demo_env (Some ''/data'') = Some ''/data''"
    by (simp add: validate_directory_path_def demo_defs)
  have n: "''/data'' \<noteq> []" by simp
  have k: "3 < length (visits demo_env ''/data'')"
    by (simp add: visits_def demo_defs)
  have e: "visits demo_env ''/data'' ! 3 = (''/data'', ''partial.crdownload'')"
    by (simp add: visits_def demo_defs)
  have p: "path_join ''/data'' ''partial.crdownload'' = ''/data/partial.crdownload''"
    by (simp add: path_join_def startswith_def endswith_def)
  have a: "get_file_attributes demo_env
             (fst (scan_prefix demo_env demo_world ''/data'' 4 6 1073741824 3600 3))
             (path_join ''/data'' ''partial.crdownload'') 6 1073741824 3600 =
           (Some \<lparr>size_bytes = 6, is_oversized = False, is_old = False, is_stale_download = True,
                   last_access = 1699999000, last_mod = 1699992800\<rparr>,
            \<lparr>ticks = 6,
               stat_calls = [''/data/empty.part'', ''/data/a.txt'', ''/data/b.txt'',
                             ''/data/partial.crdownload''],
               open_calls = [''/data/a.txt'', ''/data/b.txt'']\<rparr>)"
    by (simp add: eval_defs demo_defs)
  have s: "0 < size_bytes \<lparr>size_bytes = 6, is_oversized = False, is_old = False,
       is_stale_download = True, last_access = 1699999000, last_mod = 1699992800\<rparr>"
    by simp
  show ?thesis
    using junk_pattern_reason [OF v n k e a s]
    by (simp add: p)
qed

section \<open>Derived flags\<close>






section \<open>Duplicate detection\<close>





text \<open>
  C7. Every fingerprint retained in the duplicates map has a list of at least two paths,
  which is the list of the files with that fingerprint in the order of the traversal; an
  accumulated fingerprint with fewer than two paths is dropped, and one with at least
  two is retained.
\<close>

theorem duplicate_sets_filtered:
  assumes "validate_directory_path env root_arg = Some root_dir" and "root_dir \<noteq> []"
  shows "(\<forall>(h, ps) \<in> set (duplicates_of (fst (analyze_files env w root_arg mds mo ot dss))).
            2 \<le> length ps \<and> ps = discovered env mds (visits env root_dir) h) \<and>
         (\<forall>(h, ps) \<in> set (file_hashes (snd (analyze_loop env w root_dir mds mo ot dss))).
            (length ps < 2 \<longrightarrow>
               h \<notin> fst ` set (duplicates_of (fst (analyze_files env w root_arg mds mo ot dss)))) \<and>
            (2 \<le> length ps \<longrightarrow>
               (h, ps) \<in> set (duplicates_of (fst (analyze_files env w root_arg mds mo ot dss)))))"
proof -
  let ?fh = "file_hashes (snd (analyze_loop env w root_dir mds mo ot dss))"
  have dups: "duplicates_of (fst (analyze_files env w root_arg mds mo ot dss)) =
      filter (\<lambda>(h, paths). 1 < length paths) ?fh"
    by (simp add: analyze_files_accepted [OF assms])
  have entry: "ps = discovered env mds (visits env root_dir) h" if "(h, ps) \<in> set ?fh" for h ps
    using that by (simp add: file_hashes_entries)
  have "2 \<le> length ps \<and> ps = discovered env mds (visits env root_dir) h"
    if "(h, ps) \<in> set (filter (\<lambda>(h, paths). 1 < length paths) ?fh)" for h ps
    using that entry by auto
  moreover have "h \<notin> fst ` set (filter (\<lambda>(h, paths). 1 < length paths) ?fh)"
    if "(h, ps) \<in> set ?fh" "length ps < 2" for h ps
  proof
    assume "h \<in> fst ` set (filter (\<lambda>(h, paths). 1 < length paths) ?fh)"
    then obtain qs where qs: "(h, qs) \<in> set ?fh" "1 < length qs" by auto
    from entry [OF qs(1)] entry [OF that(1)] have "qs = ps" by simp
    with qs(2) that(2) show False by simp
  qed
  moreover have "(h, ps) \<in> set (filter (\<lambda>(h, paths). 1 < length paths) ?fh)"
    if "(h, ps) \<in> set ?fh" "2 \<le> length ps" for h ps
    using that by auto
  ultimately show ?thesis unfolding dups by blast
qed

theorem duplicate_sets_filtered_witness:
  "2 \<le> length [''/data/a.txt'', ''/data/b.txt''] \<and>
   [''/data/a.txt'', ''/data/b.txt''] = discovered demo_env 4 (visits demo_env ''/data'') ''sha256:85ccf'' \<and>
   ''sha256:123456'' \<notin>
     fst ` set (duplicates_of (fst (analyze_files demo_env demo_world (Some ''/data'') 4 6 1073741824 3600))) \<and>
   (''sha256:93f12345'', [''/data/sub/big1.iso'', ''/data/sub/big2.iso'']) \<in>
     set (duplicates_of (fst (analyze_files demo_env demo_world (Some ''/data'') 4 6 1073741824 3600)))"
proof -
  have n: "''/data'' \<noteq> []" by simp
  note inst = duplicate_sets_filtered [OF demo_valid n, of demo_world 4 6 1073741824 3600]
  have d: "(''sha256:85ccf'', [''/data/a.txt'', ''/data/b.txt'']) \<in>
      set (duplicates_of (fst (analyze_files demo_env demo_world (Some ''/data'') 4 6 1073741824 3600)))"
    by (simp add: demo_report)
  have s: "(''sha256:123456'', [''/data/partial.crdownload'']) \<in>
      set (file_hashes (snd (analyze_loop demo_env demo_world ''/data'' 4 6 1073741824 3600)))"
    by (simp add: demo_file_hashes)
  have b: "(''sha256:93f12345'', [''/data/sub/big1.iso'', ''/data/sub/big2.iso'']) \<in>
      set (file_hashes (snd (analyze_loop demo_env demo_world ''/data'' 4 6 1073741824 3600)))"
    by (simp add: demo_file_hashes)
  from bspec [OF inst [THEN conjunct1] d]
  have "[''/data/a.txt'', ''/data/b.txt''] =
        discovered demo_env 4 (visits demo_env ''/data'') ''sha256:85ccf''"
    by simp
  moreover have "2 \<le> length [''/data/a.txt'', ''/data/b.txt'']" by simp
  moreover from bspec [OF inst [THEN conjunct2] s]
  have "''sha256:123456'' \<notin>
      fst ` set (duplicates_of (fst (analyze_files demo_env demo_world (Some ''/data'') 4 6 1073741824 3600)))"
    by simp
  moreover from bspec [OF inst [THEN conjunct2] b]
  have "(''sha256:93f12345'', [''/data/sub/big1.iso'', ''/data/sub/big2.iso'']) \<in>
      set (duplicates_of (fst (analyze_files demo_env demo_world (Some ''/data'') 4 6 1073741824 3600)))"
    by simp
  ultimately show ?thesis by (intro conjI)
qed

section \<open>Errors and the shape of the result\<close>

text \<open>
  C8, at a failing input. \<^verbatim>\<open>/data/locked.bin\<close> is eligible for the duplicate check and
  its content cannot be read: \<^verbatim>\<open>compute_file_hash\<close> is called on it and returns
  \<^verbatim>\<open>None\<close>, the file is in no duplicate set, and the error list of the report holds
  only the entry of the file whose metadata read failed. The sibling branch for a failed
  \<^verbatim>\<open>get_file_attributes\<close> does append to \<^verbatim>\<open>scan_errors\<close>; this one does not.
\<close>

theorem unreadable_content_not_reported:
  "os_stat demo_env ''/data/locked.bin'' =
     Some \<lparr>st_size = 7, st_atime = 1699999000, st_mtime = 1699999000\<rparr> \<and>
   fst (compute_file_hash demo_env demo_world ''/data/locked.bin'' 65536 False) = None \<and>
   ''/data/locked.bin'' \<in>
     set (open_calls (snd (analyze_files demo_env demo_world (Some ''/data'') 4 6 1073741824 3600))) \<and>
   duplicates_of (fst (analyze_files demo_env demo_world (Some ''/data'') 4 6 1073741824 3600)) =
     [(''sha256:85ccf'', [''/data/a.txt'', ''/data/b.txt'']),
      (''sha256:93f12345'', [''/data/sub/big1.iso'', ''/data/sub/big2.iso''])] \<and>
   errors_of (fst (analyze_files demo_env demo_world (Some ''/data'') 4 6 1073741824 3600)) =
     [''Error accessing /data/gone.txt'']"
  by (simp add: demo_report compute_file_hash_result) (simp add: demo_defs)

text \<open>
  C9, as the code has it. \<^verbatim>\<open>analyze_files\<close> validates the root and nothing else: for
  all values of the four thresholds, a scan of an accepted root reads the metadata of
  every file of the walk and returns a report of five components.
\<close>

theorem thresholds_not_validated:
  assumes "validate_directory_path env root_arg = Some root_dir" and "root_dir \<noteq> []"
  shows "\<exists>oversized old junk duplicates errors w'.
           analyze_files env w root_arg mds mo ot dss =
             (Tuple5 oversized old junk duplicates errors, w') \<and>
           stat_calls w' = stat_calls w @ map visit_path (visits env root_dir)"
  by (simp add: analyze_files_accepted [OF assms] analyze_loop_visits loop_stat_calls)

theorem thresholds_not_validated_witness:
  "\<exists>oversized old junk duplicates errors w'.
     analyze_files demo_env demo_world (Some ''/data'') (- 1) (- 6) (- 1) (- 3600) =
       (Tuple5 oversized old junk duplicates errors, w') \<and>
     stat_calls w' = stat_calls demo_world @ map visit_path (visits demo_env ''/data'')"
proof -
  have n: "''/data'' \<noteq> []" by simp
  show ?thesis
    using thresholds_not_validated [OF demo_valid n, of demo_world "- 1" "- 6" "- 1" "- 3600"] .
qed

text \<open>
  C9 in the wording of the specification does not hold: with all four thresholds negative
  the scan of the concrete tree visits its thirteen files and returns a report.
\<close>

theorem invalid_thresholds_counterexample:
  "tuple_len (fst (analyze_files demo_env demo_world (Some ''/data'') (- 1) (- 6) (- 1) (- 3600))) = 5 \<and>
   stat_calls (snd (analyze_files demo_env demo_world (Some ''/data'') (- 1) (- 6) (- 1) (- 3600))) =
     [''/data/empty.part'', ''/data/a.txt'', ''/data/b.txt'', ''/data/partial.crdownload'',
      ''/data/.part'', ''/data/core.1234'', ''/data/locked.bin'', ''/data/gone.txt'',
      ''/data/REPORT.PART'', ''/data/sub/t1.txt'', ''/data/sub/t2.txt'',
      ''/data/sub/big1.iso'', ''/data/sub/big2.iso''] \<and>
   oversized_of (fst (analyze_files demo_env demo_world (Some ''/data'') (- 1) (- 6) (- 1) (- 3600))) =
     [(''/data/empty.part'', 0), (''/data/a.txt'', 5), (''/data/b.txt'', 5),
      (''/data/partial.crdownload'', 6), (''/data/.part'', 8), (''/data/core.1234'', 9),
      (''/data/locked.bin'', 7), (''/data/REPORT.PART'', 4), (''/data/sub/t1.txt'', 3),
      (''/data/sub/t2.txt'', 3), (''/data/sub/big1.iso'', 11000000),
      (''/data/sub/big2.iso'', 11000000)]"
proof -
  have n: "''/data'' \<noteq> []" by simp
  have "os_stat demo_env = demo_stat" by (simp add: demo_env_def)
  then show ?thesis
    by (simp add: analyze_files_accepted [OF demo_valid n] tuple_len_def analyze_loop_visits
          loop_stat_calls loop_oversized demo_paths demo_stat_def initial_state_def demo_world_def)
qed

text \<open>
  C10. When the root is rejected the result is the tuple of four empty lists, and binding
  it to five targets raises \<^verbatim>\<open>ValueError\<close>; when the root is accepted the result has five
  components, the last one the error list, and the binding succeeds.
\<close>

theorem result_arity_follows_root:
  "(validate_directory_path env root_arg = None \<or>
    validate_directory_path env root_arg = Some [] \<longrightarrow>
      fst (analyze_files env w root_arg mds mo ot dss) = Tuple4 [] [] [] [] \<and>
      tuple_len (fst (analyze_files env w root_arg mds mo ot dss)) = 4 \<and>
      unpack5 (fst (analyze_files env w root_arg mds mo ot dss)) = Inl ValueError) \<and>
   (validate_directory_path env root_arg = Some root_dir \<and> root_dir \<noteq> [] \<longrightarrow>
      tuple_len (fst (analyze_files env w root_arg mds mo ot dss)) = 5 \<and>
      errors_of (fst (analyze_files env w root_arg mds mo ot dss)) =
        scan_errors (snd (analyze_loop env w root_dir mds mo ot dss)) \<and>
      (\<exists>oversized old junk duplicates.
         unpack5 (fst (analyze_files env w root_arg mds mo ot dss)) =
           Inr (oversized, old, junk, duplicates,
                scan_errors (snd (analyze_loop env w root_dir mds mo ot dss)))))"
proof (intro conjI impI)
  assume r: "validate_directory_path env root_arg = None \<or>
    validate_directory_path env root_arg = Some []"
  show "fst (analyze_files env w root_arg mds mo ot dss) = Tuple4 [] [] [] []"
    "tuple_len (fst (analyze_files env w root_arg mds mo ot dss)) = 4"
    "unpack5 (fst (analyze_files env w root_arg mds mo ot dss)) = Inl ValueError"
    by (simp_all add: analyze_files_rejected [OF r] tuple_len_def unpack5_def)
next
  assume a: "validate_directory_path env root_arg = Some root_dir \<and> root_dir \<noteq> []"
  then have v: "validate_directory_path env root_arg = Some root_dir" and n: "root_dir \<noteq> []"
    by simp_all
  show "tuple_len (fst (analyze_files env w root_arg mds mo ot dss)) = 5"
    "errors_of (fst (analyze_files env w root_arg mds mo ot dss)) =
       scan_errors (snd (analyze_loop env w root_dir mds mo ot dss))"
    "\<exists>oversized old junk duplicates.
       unpack5 (fst (analyze_files env w root_arg mds mo ot dss)) =
         Inr (oversized, old, junk, duplicates,
              scan_errors (snd (analyze_loop env w root_dir mds mo ot dss)))"
    by (simp_all add: analyze_files_accepted [OF v n] tuple_len_def unpack5_def)
qed

theorem result_arity_follows_root_witness:
  "unpack5 (fst (analyze_files demo_env demo_world (Some ''/nowhere'') 4 6 1073741824 3600)) =
     Inl ValueError \<and>
   unpack5 (fst (analyze_files demo_env demo_world None 4 6 1073741824 3600)) = Inl ValueError \<and>
   tuple_len (fst (analyze_files demo_env demo_world (Some ''/nowhere'') 4 6 1073741824 3600)) = 4 \<and>
   tuple_len (fst (analyze_files demo_env demo_world (Some ''/data'') 4 6 1073741824 3600)) = 5 \<and>
   (\<exists>oversized old junk duplicates.
      unpack5 (fst (analyze_files demo_env demo_world (Some ''/data'') 4 6 1073741824 3600)) =
        Inr (oversized, old, junk, duplicates,
             scan_errors (snd (analyze_loop demo_env demo_world ''/data'' 4 6 1073741824 3600))))"
proof -
  have r1: "validate_directory_path demo_env (Some ''/nowhere'') = None \<or>
      validate_directory_path demo_env (Some ''/nowhere'') = Some []"
    by (simp add: validate_directory_path_def demo_defs)
  have r2: "validate_directory_path demo_env None = None \<or>
      validate_directory_path demo_env None = Some []"
    by (simp add: validate_directory_path_def)
  have a: "validate_directory_path demo_env (Some ''/data'') = Some ''/data'' \<and> ''/data'' \<noteq> []"
    by (simp add: demo_valid)
  from r1 a r2
    result_arity_follows_root [of demo_env "Some ''/nowhere''" demo_world 4 6 1073741824 3600]
    result_arity_follows_root [of demo_env None demo_world 4 6 1073741824 3600]
    result_arity_follows_root [of demo_env "Some ''/data''" demo_world 4 6 1073741824 3600 "''/data''"]
  show ?thesis by blast
qed

end
